theory Spec2Isabelle
  imports Complex_Main "HOL-Library.AList" "HOL-Library.Sublist"
begin

section \<open>The ledger of mCbackend.py\<close>

text \<open>
  The module keeps one global dictionary \<open>markets\<close>, loaded from \<open>products.json\<close>:
  market name to (product name to price). Python dictionaries iterate in insertion
  order, a new key goes to the end and an assignment to an existing key keeps its place,
  so a dictionary is an association list here: \<open>map_of\<close> reads a key,
  \<open>AList.update\<close> is \<open>d[k] = v\<close>, \<open>AList.delete\<close> is \<open>del d[k]\<close> and
  \<open>AList.map_entry\<close> changes the value stored under a key where it stands.
  The price is whatever the JSON document holds; no function of the module computes with
  it, so its type is a parameter.

  Strings are character lists. Only equality, the substring test and the case folding of
  the ASCII letters are used; no character outside ASCII lower-cases to one of the letters
  of \<open>all\<close>, so folding the ASCII letters decides \<open>in_market.lower() == "all"\<close>.
\<close>

type_synonym 'p catalog = "(string \<times> 'p) list"
type_synonym 'p ledger = "(string \<times> 'p catalog) list"

text \<open>
  The state is the dictionary in memory and the content of the JSON document, taken as
  the dictionary it encodes. Faults of the file system are outside the model.
\<close>

record 'p state =
  markets :: "'p ledger"
  document :: "'p ledger"

datatype exn = KeyError | AttributeError | RuntimeError

text \<open>The second argument of \<open>delete_product\<close>: \<open>Union[str, List[str]]\<close>.\<close>

datatype market_arg = Str string | StrList "string list"

text \<open>A call ends by returning a value or by raising; the state is the one it leaves behind.\<close>

type_synonym ('a, 'p) outcome = "(exn + 'a) \<times> 'p state"

subsection \<open>Strings\<close>

definition lower_char :: "char \<Rightarrow> char" where
  "lower_char c =
     (if 65 \<le> (of_char c :: nat) \<and> (of_char c :: nat) \<le> 90
      then char_of ((of_char c :: nat) + 32) else c)"

definition lower :: "string \<Rightarrow> string" where
  "lower s = map lower_char s"

text \<open>\<open>a in b\<close> on two strings: \<open>a\<close> occurs in \<open>b\<close> as a contiguous run.\<close>

fun str_in :: "string \<Rightarrow> string \<Rightarrow> bool" where
  "str_in a [] = (a = [])"
| "str_in a (c # cs) = (prefix a (c # cs) \<or> str_in a cs)"

subsection \<open>Well-formed dictionaries\<close>

text \<open>A dictionary has each key once, at both levels.\<close>

definition wf_ledger :: "'p ledger \<Rightarrow> bool" where
  "wf_ledger ms \<longleftrightarrow>
     distinct (map fst ms) \<and> list_all (\<lambda>(v, cat). distinct (map fst cat)) ms"

text \<open>The invariant of the specification: no market with an empty catalog.\<close>

definition no_empty_catalog :: "'p ledger \<Rightarrow> bool" where
  "no_empty_catalog ms \<longleftrightarrow> list_all (\<lambda>(v, cat). cat \<noteq> []) ms"

text \<open>The price stored as \<open>markets[v][p]\<close>; \<open>None\<close> when one of the keys is missing.\<close>

definition price_of :: "'p ledger \<Rightarrow> string \<Rightarrow> string \<Rightarrow> 'p option" where
  "price_of ms v p = (case map_of ms v of None \<Rightarrow> None | Some cat \<Rightarrow> map_of cat p)"

subsection \<open>update_json\<close>

definition update_json :: "'p state \<Rightarrow> 'p state" where
  "update_json st = st\<lparr>document := markets st\<rparr>"

subsection \<open>list_products\<close>

definition list_products :: "'p state \<Rightarrow> string list option" where
  "list_products st =
     (let listed =
        fold (\<lambda>(market_name, market_products) listed.
                fold (\<lambda>(product, price) listed.
                        if product \<notin> set listed then listed @ [product] else listed)
                     market_products listed)
             (markets st) []
      in if length listed = 0 then None else Some listed)"

text \<open>
  The order the specification names, written from its words: each name at the place
  where it is first seen, later occurrences dropped.
\<close>

fun first_seen :: "'a list \<Rightarrow> 'a list" where
  "first_seen [] = []"
| "first_seen (x # xs) = x # filter (\<lambda>y. y \<noteq> x) (first_seen xs)"

text \<open>Every product name of the ledger, market by market, in iteration order.\<close>

definition product_names :: "'p ledger \<Rightarrow> string list" where
  "product_names ms = concat (map (\<lambda>(v, cat). map fst cat) ms)"

subsection \<open>delete_product\<close>

text \<open>\<open>del markets[market][product]\<close>: both subscripts raise \<open>KeyError\<close> on a missing key.\<close>

definition del_entry :: "string \<Rightarrow> string \<Rightarrow> 'p ledger \<Rightarrow> exn + 'p ledger" where
  "del_entry market product ms =
     (case map_of ms market of
        None \<Rightarrow> Inl KeyError
      | Some cat \<Rightarrow>
          (case map_of cat product of
             None \<Rightarrow> Inl KeyError
           | Some c \<Rightarrow> Inr (AList.map_entry market (AList.delete product) ms)))"

text \<open>\<open>if not markets[market]: del markets[market]\<close>, reached only after the line above.\<close>

definition catalog_empty :: "string \<Rightarrow> 'p ledger \<Rightarrow> bool" where
  "catalog_empty market ms = (map_of ms market = Some [])"

text \<open>
  Lines 102 to 106, the loop \<open>for market in markets\<close>. It iterates over the keys of the
  dictionary, so \<open>market\<close> is a market's name and \<open>product in market\<close> is the substring
  test on that name. The loop runs over the dictionary it changes: once
  \<open>del markets[market]\<close> has changed its size, the iterator raises \<open>RuntimeError\<close> when
  the loop asks for the next key, also after the last one. Deleting a product leaves the
  size of \<open>markets\<close> as it is. Nothing catches an exception here.
\<close>

fun delete_all_loop :: "string \<Rightarrow> string list \<Rightarrow> 'p ledger \<Rightarrow> (exn + unit) \<times> 'p ledger" where
  "delete_all_loop product [] ms = (Inr (), ms)"
| "delete_all_loop product (market # rest) ms =
     (if str_in product market then
        (case del_entry market product ms of
           Inl e \<Rightarrow> (Inl e, ms)
         | Inr ms1 \<Rightarrow>
             if catalog_empty market ms1
             then (Inl RuntimeError, AList.delete market ms1)
             else delete_all_loop product rest ms1)
      else delete_all_loop product rest ms)"

text \<open>Lines 111 to 115, the loop over a list of market names.\<close>

fun delete_list_loop :: "string \<Rightarrow> string list \<Rightarrow> 'p ledger \<Rightarrow> (exn + unit) \<times> 'p ledger" where
  "delete_list_loop product [] ms = (Inr (), ms)"
| "delete_list_loop product (market # rest) ms =
     (if str_in product market then
        (case del_entry market product ms of
           Inl e \<Rightarrow> (Inl e, ms)
         | Inr ms1 \<Rightarrow>
             delete_list_loop product rest
               (if catalog_empty market ms1 then AList.delete market ms1 else ms1))
      else delete_list_loop product rest ms)"

text \<open>Lines 117 to 119, one market name.\<close>

definition delete_single :: "string \<Rightarrow> string \<Rightarrow> 'p ledger \<Rightarrow> (exn + unit) \<times> 'p ledger" where
  "delete_single product in_market ms =
     (case del_entry in_market product ms of
        Inl e \<Rightarrow> (Inl e, ms)
      | Inr ms1 \<Rightarrow>
          (Inr (), if catalog_empty in_market ms1 then AList.delete in_market ms1 else ms1))"

text \<open>\<open>in_market.lower()\<close>: a list has no such attribute.\<close>

fun lower_of :: "market_arg \<Rightarrow> exn + string" where
  "lower_of (Str s) = Inr (lower s)"
| "lower_of (StrList ms) = Inl AttributeError"

text \<open>Lines 102 to 107: the branch taken for \<open>"all"\<close>. It returns without \<open>update_json\<close>.\<close>

definition delete_everywhere :: "string \<Rightarrow> 'p state \<Rightarrow> (bool, 'p) outcome" where
  "delete_everywhere product st =
     (case delete_all_loop product (map fst (markets st)) (markets st) of
        (Inl e, ms) \<Rightarrow> (Inl e, st\<lparr>markets := ms\<rparr>)
      | (Inr u, ms) \<Rightarrow> (Inr True, st\<lparr>markets := ms\<rparr>))"

text \<open>Lines 109 to 123: the \<open>try\<close> block, which turns a \<open>KeyError\<close> into \<open>False\<close>.\<close>

definition delete_explicit :: "string \<Rightarrow> market_arg \<Rightarrow> 'p state \<Rightarrow> (bool, 'p) outcome" where
  "delete_explicit product in_market st =
     (case (case in_market of
              StrList ms \<Rightarrow> delete_list_loop product ms (markets st)
            | Str s \<Rightarrow> delete_single product s (markets st)) of
        (Inl KeyError, ms) \<Rightarrow> (Inr False, st\<lparr>markets := ms\<rparr>)
      | (Inl e, ms) \<Rightarrow> (Inl e, st\<lparr>markets := ms\<rparr>)
      | (Inr u, ms) \<Rightarrow> (Inr True, update_json (st\<lparr>markets := ms\<rparr>)))"

definition delete_product :: "string \<Rightarrow> market_arg \<Rightarrow> 'p state \<Rightarrow> (bool, 'p) outcome" where
  "delete_product product in_market st =
     (case lower_of in_market of
        Inl e \<Rightarrow> (Inl e, st)
      | Inr l \<Rightarrow>
          if l = ''all'' then delete_everywhere product st
          else delete_explicit product in_market st)"

subsection \<open>update_product\<close>

definition update_product :: "string \<Rightarrow> string \<Rightarrow> 'p \<Rightarrow> 'p state \<Rightarrow> 'p state" where
  "update_product product in_market cost st =
     (let ms1 = (if in_market \<notin> fst ` set (markets st)
                 then AList.update in_market [] (markets st) else markets st);
          ms2 = AList.map_entry in_market (AList.update product cost) ms1
      in update_json (st\<lparr>markets := ms2\<rparr>))"

subsection \<open>find_product\<close>

definition find_product :: "string \<Rightarrow> 'p state \<Rightarrow> (string \<times> 'p) list" where
  "find_product product st =
     fold (\<lambda>(current_market, its_products) found_in.
             fold (\<lambda>(product_name, product_price) found_in.
                     if product_name = product
                     then found_in @ [(current_market, product_price)] else found_in)
                  its_products found_in)
          (markets st) []"

text \<open>The entries of one catalog that \<open>find_product\<close> reports for a market.\<close>

definition matches :: "string \<Rightarrow> string \<Rightarrow> 'p catalog \<Rightarrow> (string \<times> 'p) list" where
  "matches product v cat = map (\<lambda>(n, pr). (v, pr)) (filter (\<lambda>(n, pr). n = product) cat)"

text \<open>A market that sells one product only is either left as it is or removed.\<close>

definition kept_or_gone :: "string \<Rightarrow> 'p catalog \<Rightarrow> 'p ledger \<Rightarrow> bool" where
  "kept_or_gone v cat ms \<longleftrightarrow> v \<notin> fst ` set ms \<or> map_of ms v = Some cat"

section \<open>Case folding\<close>

lemma of_char_lower_char:
  "(of_char (lower_char c) :: nat) =
     (if 65 \<le> (of_char c :: nat) \<and> (of_char c :: nat) \<le> 90 then of_char c + 32 else of_char c)"
  by (simp add: lower_char_def)

lemma lower_char_eq_iff:
  "lower_char c = d \<longleftrightarrow>
     (if 65 \<le> (of_char c :: nat) \<and> (of_char c :: nat) \<le> 90 then of_char c + 32 else of_char c) = (of_char d :: nat)"
  using of_char_eq_iff [of "lower_char c" d, where ?'a = nat] by (simp only: of_char_lower_char)

lemma of_char_nat_iff: "(of_char c :: nat) = n \<longleftrightarrow> n < 256 \<and> c = char_of n"
  by (metis char_of_char nat_of_char_less_256 of_char_of mod_less)

lemma char_of_letters:
  "char_of (65::nat) = CHR ''A''" "char_of (97::nat) = CHR ''a''"
  "char_of (76::nat) = CHR ''L''" "char_of (108::nat) = CHR ''l''"
  by code_simp+

lemma lower_char_a: "lower_char c = CHR ''a'' \<longleftrightarrow> c = CHR ''a'' \<or> c = CHR ''A''"
proof -
  have "(of_char c :: nat) = 65 \<longleftrightarrow> c = CHR ''A''"
    by (simp add: of_char_nat_iff char_of_letters)
  moreover have "(of_char c :: nat) = 97 \<longleftrightarrow> c = CHR ''a''"
    by (simp add: of_char_nat_iff char_of_letters)
  ultimately show ?thesis by (simp add: lower_char_eq_iff) arith
qed

lemma lower_char_l: "lower_char c = CHR ''l'' \<longleftrightarrow> c = CHR ''l'' \<or> c = CHR ''L''"
proof -
  have "(of_char c :: nat) = 76 \<longleftrightarrow> c = CHR ''L''"
    by (simp add: of_char_nat_iff char_of_letters)
  moreover have "(of_char c :: nat) = 108 \<longleftrightarrow> c = CHR ''l''"
    by (simp add: of_char_nat_iff char_of_letters)
  ultimately show ?thesis by (simp add: lower_char_eq_iff) arith
qed

lemma lower_all_iff:
  "lower s = ''all'' \<longleftrightarrow>
     s \<in> {''all'', ''alL'', ''aLl'', ''aLL'', ''All'', ''AlL'', ''ALl'', ''ALL''}"
proof -
  have "lower s = ''all'' \<longleftrightarrow>
        (\<exists>a b c. s = [a, b, c] \<and> lower_char a = CHR ''a'' \<and> lower_char b = CHR ''l''
                  \<and> lower_char c = CHR ''l'')"
    by (auto simp add: lower_def map_eq_Cons_conv)
  also have "\<dots> \<longleftrightarrow> s \<in> {''all'', ''alL'', ''aLl'', ''aLL'', ''All'', ''AlL'', ''ALl'', ''ALL''}"
    unfolding lower_char_a lower_char_l by auto
  finally show ?thesis .
qed

section \<open>find_product as a list comprehension\<close>

lemma find_inner_fold:
  "fold (\<lambda>(product_name, product_price) found_in.
           if product_name = product then found_in @ [(v, product_price)] else found_in)
        cat acc = acc @ matches product v cat"
  by (induction cat arbitrary: acc) (auto simp add: matches_def)

lemma find_outer_fold:
  "fold (\<lambda>(current_market, its_products) found_in.
           fold (\<lambda>(product_name, product_price) found_in.
                   if product_name = product
                   then found_in @ [(current_market, product_price)] else found_in)
                its_products found_in)
        ms acc = acc @ concat (map (\<lambda>(v, cat). matches product v cat) ms)"
  by (induction ms arbitrary: acc) (auto simp add: find_inner_fold)

lemma find_product_eq:
  "find_product product st = concat (map (\<lambda>(v, cat). matches product v cat) (markets st))"
  by (simp add: find_product_def find_outer_fold)

lemma matches_distinct:
  "distinct (map fst cat) \<Longrightarrow>
   matches product v cat = (case map_of cat product of None \<Rightarrow> [] | Some pr \<Rightarrow> [(v, pr)])"
proof (induction cat)
  case Nil
  then show ?case by (simp add: matches_def)
next
  case (Cons e cat)
  obtain n pr where e: "e = (n, pr)" by (cases e)
  show ?case
  proof (cases "n = product")
    case True
    with Cons.prems e have "product \<notin> fst ` set cat" by auto
    then have "filter (\<lambda>(n, pr). n = product) cat = []"
      by (force simp add: filter_empty_conv)
    with True e show ?thesis by (simp add: matches_def)
  next
    case False
    with Cons e show ?thesis by (simp add: matches_def)
  qed
qed

lemma fst_matches: "x \<in> set (matches product v cat) \<Longrightarrow> fst x = v"
  by (auto simp add: matches_def)

lemma set_matches:
  "set (matches product v cat) = {x. fst x = v \<and> (product, snd x) \<in> set cat}"
  by (force simp add: matches_def)

lemma set_find_product:
  "set (find_product product st) =
     {(v, pr). \<exists>cat. (v, cat) \<in> set (markets st) \<and> (product, pr) \<in> set cat}"
  by (force simp add: find_product_eq set_matches)

lemma find_product_of_vendor:
  "distinct (map fst ms) \<Longrightarrow> markets st = ms \<Longrightarrow>
   filter (\<lambda>x. fst x = v) (find_product product st) =
     (case map_of ms v of None \<Rightarrow> [] | Some cat \<Rightarrow> matches product v cat)"
proof (induction ms arbitrary: st)
  case Nil
  then show ?case by (simp add: find_product_eq)
next
  case (Cons e ms)
  obtain w cat where e: "e = (w, cat)" by (cases e)
  have rest: "filter (\<lambda>x. fst x = v) (find_product product (st\<lparr>markets := ms\<rparr>)) =
     (case map_of ms v of None \<Rightarrow> [] | Some cat \<Rightarrow> matches product v cat)"
    using Cons.IH [of "st\<lparr>markets := ms\<rparr>"] Cons.prems by simp
  have split: "find_product product st = matches product w cat @ find_product product (st\<lparr>markets := ms\<rparr>)"
    using Cons.prems(2) e by (simp add: find_product_eq)
  show ?case
  proof (cases "w = v")
    case True
    with Cons.prems e have "map_of ms v = None" by (simp add: map_of_eq_None_iff)
    moreover have "filter (\<lambda>x. fst x = v) (matches product v cat) = matches product v cat"
      by (simp add: filter_id_conv fst_matches)
    ultimately show ?thesis using True e split rest by simp
  next
    case False
    then have "filter (\<lambda>x. fst x = v) (matches product w cat) = []"
      by (auto simp add: filter_empty_conv dest: fst_matches)
    with False e split rest show ?thesis by simp
  qed
qed

section \<open>list_products and the first-seen order\<close>

lemma set_first_seen: "set (first_seen xs) = set xs"
  by (induction xs) auto

lemma distinct_first_seen: "distinct (first_seen xs)"
  by (induction xs) (auto simp add: set_first_seen)

lemma first_seen_Nil_iff: "first_seen xs = [] \<longleftrightarrow> xs = []"
  by (cases xs) simp_all

lemma first_seen_distinct_id: "distinct xs \<Longrightarrow> first_seen xs = xs"
  by (induction xs) (auto simp add: filter_id_conv)

lemma list_step_fold:
  "fold (\<lambda>x listed. if x \<notin> set listed then listed @ [x] else listed) xs acc =
     acc @ filter (\<lambda>x. x \<notin> set acc) (first_seen xs)"
proof (induction xs arbitrary: acc)
  case Nil
  then show ?case by simp
next
  case (Cons x xs)
  show ?case
  proof (cases "x \<in> set acc")
    case True
    then have "filter (\<lambda>y. y \<notin> set acc) (filter (\<lambda>y. y \<noteq> x) (first_seen xs)) =
               filter (\<lambda>y. y \<notin> set acc) (first_seen xs)"
      by (auto intro: filter_cong)
    with True Cons.IH [of acc] show ?thesis by simp
  next
    case False
    have "filter (\<lambda>y. y \<notin> set (acc @ [x])) (first_seen xs) =
          filter (\<lambda>y. y \<notin> set acc) (filter (\<lambda>y. y \<noteq> x) (first_seen xs))"
      by (auto intro: filter_cong)
    with False Cons.IH [of "acc @ [x]"] show ?thesis by simp
  qed
qed

lemma list_inner_fold:
  "fold (\<lambda>(product, price) listed. if product \<notin> set listed then listed @ [product] else listed)
        cat acc =
   fold (\<lambda>x listed. if x \<notin> set listed then listed @ [x] else listed) (map fst cat) acc"
  by (induction cat arbitrary: acc) (auto simp add: case_prod_beta)

lemma list_outer_fold:
  "fold (\<lambda>(market_name, market_products) listed.
           fold (\<lambda>(product, price) listed.
                   if product \<notin> set listed then listed @ [product] else listed)
                market_products listed)
        ms acc =
   fold (\<lambda>x listed. if x \<notin> set listed then listed @ [x] else listed) (product_names ms) acc"
  by (induction ms arbitrary: acc) (auto simp add: product_names_def list_inner_fold)

lemma list_products_eq:
  "list_products st =
     (if product_names (markets st) = [] then None
      else Some (first_seen (product_names (markets st))))"
  by (simp add: list_products_def list_outer_fold list_step_fold first_seen_Nil_iff)

section \<open>update_product\<close>

lemma map_entry_absent: "k \<notin> fst ` set al \<Longrightarrow> AList.map_entry k f al = al"
  by (induction al) auto

lemma map_entry_twice:
  "AList.map_entry k f (AList.map_entry k g al) = AList.map_entry k (f \<circ> g) al"
  by (induction al) auto

lemma map_entry_update_new:
  "k \<notin> fst ` set al \<Longrightarrow> AList.map_entry k f (AList.update k v al) = al @ [(k, f v)]"
  by (induction al) auto

lemma map_entry_append_new:
  "k \<notin> fst ` set al \<Longrightarrow> AList.map_entry k f (al @ [(k, v)]) = al @ [(k, f v)]"
  by (induction al) auto

lemma update_product_markets:
  "markets (update_product product v c st) =
     (if v \<in> fst ` set (markets st)
      then AList.map_entry v (AList.update product c) (markets st)
      else markets st @ [(v, [(product, c)])])"
  by (simp add: update_product_def update_json_def Let_def map_entry_update_new)

lemma update_product_document:
  "document (update_product product v c st) = markets (update_product product v c st)"
  by (simp add: update_product_def update_json_def Let_def)

lemma update_product_more:
  "state.more (update_product product v c st) = state.more st"
  by (simp add: update_product_def update_json_def Let_def)

lemma update_product_catalog:
  "map_of (markets (update_product product v c st)) v =
     Some (AList.update product c (case map_of (markets st) v of None \<Rightarrow> [] | Some cat \<Rightarrow> cat))"
proof (cases "v \<in> fst ` set (markets st)")
  case True
  then obtain cat where "map_of (markets st) v = Some cat"
    by (metis domD dom_map_of_conv_image_fst)
  with True show ?thesis
    by (simp add: update_product_markets AList.map_of_map_entry)
next
  case False
  then have "map_of (markets st) v = None" by (simp add: map_of_eq_None_iff)
  with False show ?thesis by (simp add: update_product_markets map_add_def)
qed

lemma update_product_other_market:
  "w \<noteq> v \<Longrightarrow> map_of (markets (update_product product v c st)) w = map_of (markets st) w"
  by (simp add: update_product_markets AList.map_of_map_entry map_add_def
           split: option.splits)

lemma wf_ledger_update_product:
  assumes "wf_ledger (markets st)"
  shows "wf_ledger (markets (update_product product v c st))"
proof (cases "v \<in> fst ` set (markets st)")
  case True
  have "\<And>ms. list_all (\<lambda>(v, cat). distinct (map fst cat)) ms \<Longrightarrow>
     list_all (\<lambda>(v, cat). distinct (map fst cat)) (AList.map_entry v (AList.update product c) ms)"
  proof -
    fix ms :: "'a ledger"
    show "list_all (\<lambda>(v, cat). distinct (map fst cat)) ms \<Longrightarrow>
     list_all (\<lambda>(v, cat). distinct (map fst cat)) (AList.map_entry v (AList.update product c) ms)"
      by (induction ms) (auto simp add: AList.distinct_update)
  qed
  with assms True show ?thesis
    by (simp add: wf_ledger_def update_product_markets AList.distinct_map_entry)
next
  case False
  with assms show ?thesis
    by (simp add: wf_ledger_def update_product_markets)
qed

section \<open>Invariants of delete_product\<close>

lemma del_entry_InrD:
  "del_entry market product ms = Inr ms1 \<Longrightarrow>
     ms1 = AList.map_entry market (AList.delete product) ms \<and>
     (\<exists>cat c. map_of ms market = Some cat \<and> map_of cat product = Some c)"
  by (auto simp add: del_entry_def split: option.splits)

lemma del_entry_InlD: "del_entry market product ms = Inl e \<Longrightarrow> e = KeyError"
  by (auto simp add: del_entry_def split: option.splits)

lemma del_entry_missing:
  "price_of ms market product = None \<Longrightarrow> del_entry market product ms = Inl KeyError"
  by (auto simp add: del_entry_def price_of_def split: option.splits)

lemma del_entry_present:
  "map_of ms market = Some cat \<Longrightarrow> map_of cat product = Some c \<Longrightarrow>
   del_entry market product ms = Inr (AList.map_entry market (AList.delete product) ms)"
  by (simp add: del_entry_def)

text \<open>One passage through the body of a loop: the deletion and the pruning that follows.\<close>

lemma loop_all_invariant:
  assumes step: "\<And>m ms ms1. I ms \<Longrightarrow> del_entry m product ms = Inr ms1 \<Longrightarrow>
                   I (if catalog_empty m ms1 then AList.delete m ms1 else ms1)"
    and "I ms"
  shows "I (snd (delete_all_loop product ks ms))"
  using \<open>I ms\<close>
proof (induction ks arbitrary: ms)
  case Nil
  then show ?case by simp
next
  case (Cons k ks)
  show ?case
  proof (cases "str_in product k")
    case False
    with Cons show ?thesis by simp
  next
    case True
    show ?thesis
    proof (cases "del_entry k product ms")
      case (Inl e)
      with True Cons.prems show ?thesis by simp
    next
      case (Inr ms1)
      from step [OF Cons.prems Inr] Cons.IH [of ms1] True Inr
      show ?thesis by (simp split: if_splits)
    qed
  qed
qed

lemma loop_list_invariant:
  assumes step: "\<And>m ms ms1. I ms \<Longrightarrow> del_entry m product ms = Inr ms1 \<Longrightarrow>
                   I (if catalog_empty m ms1 then AList.delete m ms1 else ms1)"
    and "I ms"
  shows "I (snd (delete_list_loop product ks ms))"
  using \<open>I ms\<close>
proof (induction ks arbitrary: ms)
  case Nil
  then show ?case by simp
next
  case (Cons k ks)
  show ?case
  proof (cases "str_in product k")
    case False
    with Cons show ?thesis by simp
  next
    case True
    show ?thesis
    proof (cases "del_entry k product ms")
      case (Inl e)
      with True Cons.prems show ?thesis by simp
    next
      case (Inr ms1)
      from step [OF Cons.prems Inr] Cons.IH True Inr
      show ?thesis by simp
    qed
  qed
qed

lemma single_invariant:
  assumes step: "\<And>m ms ms1. I ms \<Longrightarrow> del_entry m product ms = Inr ms1 \<Longrightarrow>
                   I (if catalog_empty m ms1 then AList.delete m ms1 else ms1)"
    and "I ms"
  shows "I (snd (delete_single product v ms))"
proof (cases "del_entry v product ms")
  case (Inl e)
  with \<open>I ms\<close> show ?thesis by (simp add: delete_single_def)
next
  case (Inr ms1)
  from step [OF \<open>I ms\<close> Inr] Inr show ?thesis by (simp add: delete_single_def)
qed

lemma markets_delete_everywhere:
  "markets (snd (delete_everywhere product st)) =
     snd (delete_all_loop product (map fst (markets st)) (markets st))"
  by (simp add: delete_everywhere_def split: prod.splits sum.splits)

lemma markets_delete_explicit:
  "markets (snd (delete_explicit product target st)) =
     snd (case target of
            StrList ms \<Rightarrow> delete_list_loop product ms (markets st)
          | Str s \<Rightarrow> delete_single product s (markets st))"
  by (simp add: delete_explicit_def update_json_def split: prod.splits sum.splits exn.splits)

lemma delete_product_invariant:
  assumes step: "\<And>m ms ms1. I ms \<Longrightarrow> del_entry m product ms = Inr ms1 \<Longrightarrow>
                   I (if catalog_empty m ms1 then AList.delete m ms1 else ms1)"
    and "I (markets st)"
  shows "I (markets (snd (delete_product product target st)))"
proof (cases target)
  case (StrList ms)
  with \<open>I (markets st)\<close> show ?thesis by (simp add: delete_product_def)
next
  case (Str s)
  show ?thesis
  proof (cases "lower s = ''all''")
    case True
    with Str loop_all_invariant [of I product, OF step \<open>I (markets st)\<close>]
    show ?thesis by (simp add: delete_product_def markets_delete_everywhere)
  next
    case False
    with Str single_invariant [of I product, OF step \<open>I (markets st)\<close>]
    show ?thesis by (simp add: delete_product_def markets_delete_explicit)
  qed
qed

section \<open>The empty-catalog invariant\<close>

lemma no_empty_catalog_iff: "no_empty_catalog ms \<longleftrightarrow> (\<forall>v. (v, []) \<notin> set ms)"
  by (auto simp add: no_empty_catalog_def list_all_iff)

lemma set_map_entry:
  "(k', x) \<in> set (AList.map_entry k f al) \<Longrightarrow>
     (k', x) \<in> set al \<or> (k' = k \<and> map_of (AList.map_entry k f al) k = Some x)"
  by (induction al) (auto split: if_splits)

lemma set_delete: "(k', x) \<in> set (AList.delete k al) \<longleftrightarrow> k' \<noteq> k \<and> (k', x) \<in> set al"
  by (auto simp add: AList.delete_eq)

lemma keys_delete: "fst ` set (AList.delete k al) = fst ` set al - {k}"
  by (force simp add: AList.delete_eq)

lemma no_empty_catalog_step:
  assumes "no_empty_catalog ms" and "del_entry m product ms = Inr ms1"
  shows "no_empty_catalog (if catalog_empty m ms1 then AList.delete m ms1 else ms1)"
proof -
  from assms(2) have ms1: "ms1 = AList.map_entry m (AList.delete product) ms"
    by (simp add: del_entry_InrD)
  have entries: "(v, []) \<in> set ms1 \<Longrightarrow> v = m \<and> catalog_empty m ms1" for v
    using set_map_entry [of v "[]" m "AList.delete product" ms] assms(1)
    by (auto simp add: ms1 no_empty_catalog_iff catalog_empty_def)
  show ?thesis
  proof (cases "catalog_empty m ms1")
    case True
    with entries show ?thesis by (auto simp add: no_empty_catalog_iff set_delete)
  next
    case False
    with entries show ?thesis by (auto simp add: no_empty_catalog_iff)
  qed
qed

lemma kept_or_gone_step:
  assumes "kept_or_gone v [(product, c)] ms" and "del_entry m product ms = Inr ms1"
  shows "kept_or_gone v [(product, c)] (if catalog_empty m ms1 then AList.delete m ms1 else ms1)"
proof -
  from assms(2) obtain cat c' where
    ms1: "ms1 = AList.map_entry m (AList.delete product) ms"
    and cat: "map_of ms m = Some cat" "map_of cat product = Some c'"
    by (auto dest: del_entry_InrD)
  show ?thesis
  proof (cases "m = v")
    case True
    with cat assms(1) have "cat = [(product, c)]"
      by (auto simp add: kept_or_gone_def map_of_eq_None_iff [symmetric])
    with True cat have "catalog_empty v ms1"
      by (simp add: catalog_empty_def ms1 AList.map_of_map_entry)
    with True show ?thesis by (simp add: kept_or_gone_def keys_delete)
  next
    case False
    with assms(1) show ?thesis
      by (auto simp add: kept_or_gone_def ms1 keys_delete AList.dom_map_entry
            AList.map_of_map_entry)
  qed
qed

lemma no_empty_catalog_update_product:
  assumes "no_empty_catalog (markets st)"
  shows "no_empty_catalog (markets (update_product product v c st))"
proof (cases "v \<in> fst ` set (markets st)")
  case True
  have "(w, []) \<notin> set (AList.map_entry v (AList.update product c) (markets st))" for w
    using set_map_entry [of w "[]" v "AList.update product c" "markets st"] assms True
    by (auto simp add: no_empty_catalog_iff AList.map_of_map_entry split: option.splits)
  with True show ?thesis by (simp add: no_empty_catalog_iff update_product_markets)
next
  case False
  with assms show ?thesis by (simp add: no_empty_catalog_def update_product_markets)
qed

lemma delete_single_only_product:
  assumes "map_of ms v = Some [(product, c)]"
  shows "delete_single product v ms =
           (Inr (), AList.delete v (AList.map_entry v (AList.delete product) ms))"
  using assms
  by (simp add: delete_single_def del_entry_def catalog_empty_def AList.map_of_map_entry)

section \<open>Deleting the only product of a market\<close>

lemma delete_product_only_product:
  assumes "map_of (markets st) v = Some [(product, c)]" and "lower v \<noteq> ''all''"
  shows "delete_product product (Str v) st =
           (Inr True, update_json (st\<lparr>markets :=
              AList.delete v (AList.map_entry v (AList.delete product) (markets st))\<rparr>))"
  using assms
  by (simp add: delete_product_def delete_explicit_def delete_single_only_product)

section \<open>What delete_product leaves undone\<close>

lemma delete_everywhere_document:
  "document (snd (delete_everywhere product st)) = document st"
  by (simp add: delete_everywhere_def split: prod.splits sum.splits)

lemma delete_product_single_missing:
  assumes "lower s \<noteq> ''all''" and "price_of (markets st) s product = None"
  shows "delete_product product (Str s) st = (Inr False, st)"
  using assms
  by (simp add: delete_product_def delete_explicit_def delete_single_def del_entry_missing)

section \<open>The claims\<close>

text \<open>
  C1. \<open>find_product\<close> returns the matches in the iteration order of the markets and does
  not sort them: with Milk at Vendor A for 1.50 and at Vendor B for 1.20 it returns
  Vendor A first, a list that is not ascending by price.
\<close>

theorem find_product_not_sorted:
  "find_product ''Milk''
     \<lparr>markets = [(''Vendor A'', [(''Milk'', 3/2::real)]), (''Vendor B'', [(''Milk'', 6/5)])],
       document = [(''Vendor A'', [(''Milk'', 3/2)]), (''Vendor B'', [(''Milk'', 6/5)])]\<rparr>
     = [(''Vendor A'', 3/2), (''Vendor B'', 6/5)]
   \<and> \<not> sorted (map snd (find_product ''Milk''
     \<lparr>markets = [(''Vendor A'', [(''Milk'', 3/2::real)]), (''Vendor B'', [(''Milk'', 6/5)])],
       document = [(''Vendor A'', [(''Milk'', 3/2)]), (''Vendor B'', [(''Milk'', 6/5)])]\<rparr>))"
proof -
  have found: "find_product ''Milk''
     \<lparr>markets = [(''Vendor A'', [(''Milk'', 3/2::real)]), (''Vendor B'', [(''Milk'', 6/5)])],
       document = [(''Vendor A'', [(''Milk'', 3/2)]), (''Vendor B'', [(''Milk'', 6/5)])]\<rparr>
     = [(''Vendor A'', 3/2), (''Vendor B'', 6/5)]"
    by (simp add: find_product_def)
  have two: "sorted [a, b] = (a \<le> b)" for a b :: real by simp
  have "\<not> ((3/2::real) \<le> 6/5)" by simp
  then have "\<not> sorted [3/2::real, 6/5]" by (simp only: two simp_thms)
  then show ?thesis by (simp only: found list.map snd_conv simp_thms)
qed

text \<open>
  C2. With the argument \<open>all\<close>, \<open>delete_product\<close> tests whether the product's name
  occurs in the market's name, not whether the market sells the product: Milk stays in the
  catalog of market B and the call returns \<open>True\<close>. Where the product is removed (the
  market Milk Shop), the document is not rewritten.
\<close>

theorem delete_all_keeps_product:
  "delete_product ''Milk'' (Str ''all'')
     \<lparr>markets = [(''B'', [(''Bread'', 3/2::real), (''Milk'', 1)])],
       document = [(''B'', [(''Bread'', 3/2), (''Milk'', 1)])]\<rparr>
     = (Inr True,
        \<lparr>markets = [(''B'', [(''Bread'', 3/2), (''Milk'', 1)])],
          document = [(''B'', [(''Bread'', 3/2), (''Milk'', 1)])]\<rparr>)
   \<and> delete_product ''Milk'' (Str ''all'')
     \<lparr>markets = [(''Milk Shop'', [(''Bread'', 3/2::real), (''Milk'', 1)])],
       document = [(''Milk Shop'', [(''Bread'', 3/2), (''Milk'', 1)])]\<rparr>
     = (Inr True,
        \<lparr>markets = [(''Milk Shop'', [(''Bread'', 3/2)])],
          document = [(''Milk Shop'', [(''Bread'', 3/2), (''Milk'', 1)])]\<rparr>)"
  by (simp add: delete_product_def lower_def lower_char_def delete_everywhere_def
        del_entry_def catalog_empty_def)

text \<open>
  C3. A list of market names never reaches the loop written for it: the first line of
  \<open>delete_product\<close> calls \<open>lower\<close> on the argument, which a list does not have, so the
  call raises \<open>AttributeError\<close> and returns neither \<open>True\<close> nor \<open>False\<close>. The
  dictionary and the document stay as they were.
\<close>

theorem delete_product_list_raises:
  "delete_product product (StrList names) st = (Inl AttributeError, st)"
  by (simp add: delete_product_def)

theorem delete_product_list_raises_witness:
  "delete_product ''Milk'' (StrList [''A''])
     \<lparr>markets = [(''A'', [(''Bread'', 2::int)])], document = [(''A'', [(''Bread'', 2)])]\<rparr>
   = (Inl AttributeError,
      \<lparr>markets = [(''A'', [(''Bread'', 2::int)])], document = [(''A'', [(''Bread'', 2)])]\<rparr>)"
  by (rule delete_product_list_raises)

text \<open>
  C4. After \<open>update_product product v c\<close> on a well-formed dictionary, the catalog of
  \<open>v\<close> is its former catalog (the empty one when \<open>v\<close> was absent) with \<open>product\<close>
  set to \<open>c\<close>, and \<open>find_product product\<close> reports exactly one pair for the market
  \<open>v\<close>, the pair \<open>(v, c)\<close>, which it therefore contains exactly once.
\<close>

theorem update_product_then_find:
  assumes "wf_ledger (markets st)"
  shows "map_of (markets (update_product product v c st)) v =
           Some (AList.update product c
                   (case map_of (markets st) v of None \<Rightarrow> [] | Some cat \<Rightarrow> cat))
       \<and> price_of (markets (update_product product v c st)) v product = Some c
       \<and> filter (\<lambda>x. fst x = v) (find_product product (update_product product v c st)) = [(v, c)]
       \<and> count_list (find_product product (update_product product v c st)) (v, c) = 1"
proof -
  let ?st' = "update_product product v c st"
  let ?cat = "AList.update product c (case map_of (markets st) v of None \<Rightarrow> [] | Some cat \<Rightarrow> cat)"
  have wf: "wf_ledger (markets ?st')"
    using assms by (rule wf_ledger_update_product)
  have cat: "map_of (markets ?st') v = Some ?cat"
    by (rule update_product_catalog)
  then have "(v, ?cat) \<in> set (markets ?st')" by (rule map_of_SomeD)
  with wf have dcat: "distinct (map fst ?cat)"
    by (auto simp add: wf_ledger_def list_all_iff)
  have price: "map_of ?cat product = Some c" by (simp add: AList.update_conv')
  have one: "filter (\<lambda>x. fst x = v) (find_product product ?st') = [(v, c)]"
    using wf find_product_of_vendor [of "markets ?st'" ?st' v product] cat
      matches_distinct [OF dcat, of product v] price
    by (simp add: wf_ledger_def)
  have "filter ((=) (v, c)) (find_product product ?st') =
        filter ((=) (v, c)) (filter (\<lambda>x. fst x = v) (find_product product ?st'))"
    by (auto intro: filter_cong)
  then have "count_list (find_product product ?st') (v, c) = 1"
    by (simp add: count_list_eq_length_filter one)
  with cat price one show ?thesis by (simp add: price_of_def)
qed

theorem update_product_then_find_witness:
  "wf_ledger [(''A'', [(''Milk'', 2::int)]), (''B'', [(''Bread'', 3), (''Milk'', 4)])]
   \<and> filter (\<lambda>x. fst x = ''B'')
        (find_product ''Milk'' (update_product ''Milk'' ''B'' 1
          \<lparr>markets = [(''A'', [(''Milk'', 2::int)]), (''B'', [(''Bread'', 3), (''Milk'', 4)])],
            document = []\<rparr>)) = [(''B'', 1)]
   \<and> count_list
        (find_product ''Milk'' (update_product ''Milk'' ''B'' 1
          \<lparr>markets = [(''A'', [(''Milk'', 2::int)]), (''B'', [(''Bread'', 3), (''Milk'', 4)])],
            document = []\<rparr>)) (''B'', 1) = 1"
proof -
  let ?st = "\<lparr>markets = [(''A'', [(''Milk'', 2::int)]), (''B'', [(''Bread'', 3), (''Milk'', 4)])],
            document = []\<rparr>"
  have wf: "wf_ledger (markets ?st)" by (simp add: wf_ledger_def)
  from update_product_then_find [OF wf, of "''Milk''" "''B''" 1] wf
  show ?thesis by simp
qed

text \<open>
  C5. From a dictionary without an empty catalog, \<open>update_product\<close> and
  \<open>delete_product\<close> (whatever its second argument, and whether it returns or raises)
  leave a dictionary without an empty catalog. A market whose only product is the one
  deleted is, after the call, either gone or untouched, never left with an empty catalog;
  and when the call names that market, it returns \<open>True\<close> and the market is gone.
\<close>

theorem no_empty_catalog_preserved:
  assumes "no_empty_catalog (markets st)"
  shows "no_empty_catalog (markets (update_product product v c st))
       \<and> no_empty_catalog (markets (snd (delete_product product target st)))
       \<and> (map_of (markets st) v = Some [(product, c)] \<longrightarrow>
            v \<notin> fst ` set (markets (snd (delete_product product target st)))
            \<or> map_of (markets (snd (delete_product product target st))) v = Some [(product, c)])
       \<and> (map_of (markets st) v = Some [(product, c)] \<and> lower v \<noteq> ''all'' \<longrightarrow>
            fst (delete_product product (Str v) st) = Inr True
            \<and> v \<notin> fst ` set (markets (snd (delete_product product (Str v) st))))"
proof (intro conjI impI)
  show "no_empty_catalog (markets (update_product product v c st))"
    using assms by (rule no_empty_catalog_update_product)
next
  show "no_empty_catalog (markets (snd (delete_product product target st)))"
    using assms by (rule delete_product_invariant [rotated]) (rule no_empty_catalog_step)
next
  assume "map_of (markets st) v = Some [(product, c)]"
  then have "kept_or_gone v [(product, c)] (markets st)"
    by (simp add: kept_or_gone_def)
  then have "kept_or_gone v [(product, c)] (markets (snd (delete_product product target st)))"
    by (rule delete_product_invariant [rotated]) (rule kept_or_gone_step)
  then show "v \<notin> fst ` set (markets (snd (delete_product product target st)))
            \<or> map_of (markets (snd (delete_product product target st))) v = Some [(product, c)]"
    by (simp add: kept_or_gone_def)
next
  assume a: "map_of (markets st) v = Some [(product, c)] \<and> lower v \<noteq> ''all''"
  then show "fst (delete_product product (Str v) st) = Inr True"
    by (simp add: delete_product_only_product)
  from a show "v \<notin> fst ` set (markets (snd (delete_product product (Str v) st)))"
    by (simp add: delete_product_only_product update_json_def keys_delete)
qed

theorem no_empty_catalog_preserved_witness:
  "no_empty_catalog [(''A'', [(''Bread'', 2::int)]), (''B'', [(''Bread'', 1), (''Milk'', 1)])]
   \<and> no_empty_catalog (markets (update_product ''Bread'' ''A'' 2
        \<lparr>markets = [(''A'', [(''Bread'', 2::int)]), (''B'', [(''Bread'', 1), (''Milk'', 1)])],
          document = []\<rparr>))
   \<and> no_empty_catalog (markets (snd (delete_product ''Bread'' (Str ''A'')
        \<lparr>markets = [(''A'', [(''Bread'', 2::int)]), (''B'', [(''Bread'', 1), (''Milk'', 1)])],
          document = []\<rparr>)))
   \<and> fst (delete_product ''Bread'' (Str ''A'')
        \<lparr>markets = [(''A'', [(''Bread'', 2::int)]), (''B'', [(''Bread'', 1), (''Milk'', 1)])],
          document = []\<rparr>) = Inr True
   \<and> ''A'' \<notin> fst ` set (markets (snd (delete_product ''Bread'' (Str ''A'')
        \<lparr>markets = [(''A'', [(''Bread'', 2::int)]), (''B'', [(''Bread'', 1), (''Milk'', 1)])],
          document = []\<rparr>)))"
proof -
  let ?st = "\<lparr>markets = [(''A'', [(''Bread'', 2::int)]), (''B'', [(''Bread'', 1), (''Milk'', 1)])],
          document = []\<rparr>"
  have ne: "no_empty_catalog (markets ?st)" by (simp add: no_empty_catalog_def)
  have only: "map_of (markets ?st) ''A'' = Some [(''Bread'', 2)]" by simp
  have name: "lower ''A'' \<noteq> ''all''" by (simp add: lower_def)
  from no_empty_catalog_preserved [OF ne, of "''Bread''" "''A''" 2 "Str ''A''"] ne only name
  show ?thesis by simp
qed

text \<open>
  C6. Calling \<open>update_product\<close> a second time with the same product, market and price
  leaves the dictionary and the document as the first call left them.
\<close>

theorem update_product_idempotent:
  "update_product product v c (update_product product v c st) = update_product product v c st"
proof -
  let ?st1 = "update_product product v c st"
  have in1: "v \<in> fst ` set (markets ?st1)"
    by (simp add: update_product_markets AList.dom_map_entry)
  have "AList.map_entry v (AList.update product c) (markets ?st1) = markets ?st1"
    by (simp add: update_product_markets map_entry_twice map_entry_append_new comp_def)
  with in1 have "markets (update_product product v c ?st1) = markets ?st1"
    by (simp add: update_product_markets [of product v c ?st1])
  then show ?thesis
    by (simp add: state.equality update_product_document update_product_more)
qed

theorem update_product_idempotent_witness:
  "update_product ''Milk'' ''B'' (1::int)
     (update_product ''Milk'' ''B'' 1 \<lparr>markets = [(''A'', [(''Milk'', 2)])], document = []\<rparr>)
   = \<lparr>markets = [(''A'', [(''Milk'', 2)]), (''B'', [(''Milk'', 1)])],
      document = [(''A'', [(''Milk'', 2)]), (''B'', [(''Milk'', 1)])]\<rparr>"
proof -
  let ?st = "\<lparr>markets = [(''A'', [(''Milk'', 2::int)])], document = []\<rparr>"
  have "update_product ''Milk'' ''B'' 1 (update_product ''Milk'' ''B'' 1 ?st) =
        update_product ''Milk'' ''B'' 1 ?st"
    by (rule update_product_idempotent)
  also have "\<dots> = \<lparr>markets = [(''A'', [(''Milk'', 2)]), (''B'', [(''Milk'', 1)])],
      document = [(''A'', [(''Milk'', 2)]), (''B'', [(''Milk'', 1)])]\<rparr>"
    by (simp add: update_product_def update_json_def Let_def)
  finally show ?thesis .
qed

text \<open>
  C7. \<open>list_products\<close> returns the product names of all catalogs, each once, every name
  at the place of its first occurrence in the iteration over the markets and, inside a
  market, over its products; it returns \<open>None\<close> when no catalog holds a product.
\<close>

theorem list_products_first_seen:
  "list_products st =
     (if product_names (markets st) = [] then None
      else Some (first_seen (product_names (markets st))))
   \<and> distinct (first_seen (product_names (markets st)))
   \<and> set (first_seen (product_names (markets st))) = set (product_names (markets st))"
  by (simp add: list_products_eq distinct_first_seen set_first_seen)

theorem list_products_first_seen_witness:
  "list_products \<lparr>markets = [(''A'', [(''Bread'', 2::int), (''Milk'', 1)]),
                              (''B'', [(''Eggs'', 3), (''Bread'', 1)])], document = []\<rparr>
     = Some [''Bread'', ''Milk'', ''Eggs'']
   \<and> list_products \<lparr>markets = ([] :: int ledger), document = []\<rparr> = None"
  using list_products_first_seen
    [of "\<lparr>markets = [(''A'', [(''Bread'', 2::int), (''Milk'', 1)]),
                              (''B'', [(''Eggs'', 3), (''Bread'', 1)])], document = []\<rparr>"]
    list_products_first_seen [of "\<lparr>markets = ([] :: int ledger), document = []\<rparr>"]
  by (simp add: product_names_def)

text \<open>
  C9. A string argument whose lower-case form is \<open>all\<close>, that is \<open>all\<close> in any of its
  eight capitalisations, makes \<open>delete_product\<close> take the branch for every market, so a
  market of that name is never handled by the branch for one named market.
\<close>

theorem all_sentinel_any_case:
  "(lower s = ''all'' \<longleftrightarrow>
      s \<in> {''all'', ''alL'', ''aLl'', ''aLL'', ''All'', ''AlL'', ''ALl'', ''ALL''})
   \<and> (lower s = ''all'' \<longrightarrow> delete_product product (Str s) st = delete_everywhere product st)
   \<and> (lower s \<noteq> ''all'' \<longrightarrow>
        delete_product product (Str s) st = delete_explicit product (Str s) st)"
  by (simp add: lower_all_iff delete_product_def)

theorem all_sentinel_any_case_witness:
  "lower ''All'' = ''all''
   \<and> delete_product ''Milk'' (Str ''All'')
        \<lparr>markets = [(''All'', [(''Milk'', 1::int)])], document = [(''All'', [(''Milk'', 1)])]\<rparr>
     = (Inr True,
        \<lparr>markets = [(''All'', [(''Milk'', 1::int)])], document = [(''All'', [(''Milk'', 1)])]\<rparr>)
   \<and> delete_explicit ''Milk'' (Str ''All'')
        \<lparr>markets = [(''All'', [(''Milk'', 1::int)])], document = [(''All'', [(''Milk'', 1)])]\<rparr>
     = (Inr True, \<lparr>markets = [], document = []\<rparr>)"
proof -
  let ?st = "\<lparr>markets = [(''All'', [(''Milk'', 1::int)])], document = [(''All'', [(''Milk'', 1)])]\<rparr>"
  have l: "lower ''All'' = ''all''" by code_simp
  have "delete_product ''Milk'' (Str ''All'') ?st = delete_everywhere ''Milk'' ?st"
    using all_sentinel_any_case [of "''All''" "''Milk''" ?st] l by simp
  moreover have "delete_everywhere ''Milk'' ?st = (Inr True, ?st)"
    by (simp add: delete_everywhere_def)
  moreover have "delete_explicit ''Milk'' (Str ''All'') ?st
     = (Inr True, \<lparr>markets = [], document = []\<rparr>)"
    by (simp add: delete_explicit_def delete_single_def del_entry_def catalog_empty_def
          update_json_def)
  ultimately show ?thesis using l by simp
qed

text \<open>
  C10. \<open>update_product product v c\<close> leaves the catalog of every market other than \<open>v\<close>
  as it was, and in the catalog of \<open>v\<close> every product other than \<open>product\<close> keeps its
  price; the markets that were there keep their places, and a new market goes to the end.
\<close>

theorem update_product_frame:
  "(w \<noteq> v \<longrightarrow> map_of (markets (update_product product v c st)) w = map_of (markets st) w)
   \<and> (p \<noteq> product \<longrightarrow>
        price_of (markets (update_product product v c st)) v p = price_of (markets st) v p)
   \<and> map fst (markets (update_product product v c st)) =
       (if v \<in> fst ` set (markets st) then map fst (markets st)
        else map fst (markets st) @ [v])"
proof (intro conjI impI)
  assume "w \<noteq> v"
  then show "map_of (markets (update_product product v c st)) w = map_of (markets st) w"
    by (rule update_product_other_market)
next
  assume "p \<noteq> product"
  then show "price_of (markets (update_product product v c st)) v p = price_of (markets st) v p"
    by (simp add: price_of_def update_product_catalog AList.update_conv'
             split: option.splits)
next
  have "\<And>f ms. map fst (AList.map_entry v f ms) = map fst (ms :: 'a ledger)"
  proof -
    fix f and ms :: "'a ledger"
    show "map fst (AList.map_entry v f ms) = map fst ms" by (induction ms) auto
  qed
  then show "map fst (markets (update_product product v c st)) =
       (if v \<in> fst ` set (markets st) then map fst (markets st)
        else map fst (markets st) @ [v])"
    by (simp add: update_product_markets)
qed

theorem update_product_frame_witness:
  "map_of (markets (update_product ''Milk'' ''B'' (1::int)
      \<lparr>markets = [(''A'', [(''Milk'', 2)]), (''B'', [(''Bread'', 3), (''Milk'', 4)])],
        document = []\<rparr>)) ''A'' = Some [(''Milk'', 2)]
   \<and> price_of (markets (update_product ''Milk'' ''B'' (1::int)
      \<lparr>markets = [(''A'', [(''Milk'', 2)]), (''B'', [(''Bread'', 3), (''Milk'', 4)])],
        document = []\<rparr>)) ''B'' ''Bread'' = Some 3"
  using update_product_frame
    [of "''A''" "''B''" "''Milk''" "1::int"
        "\<lparr>markets = [(''A'', [(''Milk'', 2)]), (''B'', [(''Bread'', 3), (''Milk'', 4)])],
          document = []\<rparr>" "''Bread''"]
  by (simp add: price_of_def)

end
